theory Spec2Isabelle
  imports Complex_Main
begin

section \<open>argparse.h: a shallow embedding\<close>

text \<open>
  The header \<^verbatim>\<open>src/argparse.h\<close> declares \<^verbatim>\<open>ArgumentParser\<close>: three
  registration members (\<^verbatim>\<open>add_flag\<close>, \<^verbatim>\<open>add_option\<close>, \<^verbatim>\<open>add_positional\<close>),
  the conversion strategies \<^verbatim>\<open>ParseTraits<T>::parse\<close> and \<^verbatim>\<open>parse_args\<close>.
  Member functions become functions that take the parser object and return it
  updated; text written to \<^verbatim>\<open>std::cerr\<close> becomes a list of diagnostics; a C++
  exception becomes the left summand of a sum type.
\<close>

subsection \<open>Regular expressions (\<^verbatim>\<open>std::regex\<close>, \<^verbatim>\<open>std::regex_match\<close>)\<close>

text \<open>
  The three patterns of the header use a literal character, bracket expressions made
  of single characters and ranges, sequencing, \<^verbatim>\<open>+\<close> and \<^verbatim>\<open>*\<close>.
  \<open>Zero\<close>, \<open>One\<close> and \<open>Alt\<close> only arise while a pattern is matched.
  A bracket expression is the list of its ranges (a single character \<open>c\<close> is the range
  \<open>(c, c)\<close>); a range is decided on character codes.
\<close>

datatype regex =
    Zero
  | One
  | Chr char
  | Bracket "(char \<times> char) list"
  | Alt regex regex
  | Seq regex regex
  | Star regex

definition Plus :: "regex \<Rightarrow> regex" where
  "Plus r = Seq r (Star r)"

definition in_range :: "char \<Rightarrow> char \<times> char \<Rightarrow> bool" where
  "in_range c rg = ((of_char (fst rg) :: nat) \<le> of_char c \<and> (of_char c :: nat) \<le> of_char (snd rg))"

definition in_bracket :: "(char \<times> char) list \<Rightarrow> char \<Rightarrow> bool" where
  "in_bracket rs c = list_ex (in_range c) rs"

fun nullable :: "regex \<Rightarrow> bool" where
  "nullable Zero = False"
| "nullable One = True"
| "nullable (Chr c) = False"
| "nullable (Bracket rs) = False"
| "nullable (Alt r s) = (nullable r \<or> nullable s)"
| "nullable (Seq r s) = (nullable r \<and> nullable s)"
| "nullable (Star r) = True"

text \<open>\<open>deriv c r\<close> matches what \<open>r\<close> matches after a leading \<open>c\<close>.\<close>

fun deriv :: "char \<Rightarrow> regex \<Rightarrow> regex" where
  "deriv c Zero = Zero"
| "deriv c One = Zero"
| "deriv c (Chr d) = (if c = d then One else Zero)"
| "deriv c (Bracket rs) = (if in_bracket rs c then One else Zero)"
| "deriv c (Alt r s) = Alt (deriv c r) (deriv c s)"
| "deriv c (Seq r s) =
     (if nullable r then Alt (Seq (deriv c r) s) (deriv c s) else Seq (deriv c r) s)"
| "deriv c (Star r) = Seq (deriv c r) (Star r)"

text \<open>\<^verbatim>\<open>std::regex_match(s, rule)\<close>: the whole of \<open>s\<close> must match.\<close>

fun regex_match :: "string \<Rightarrow> regex \<Rightarrow> bool" where
  "regex_match [] r = nullable r"
| "regex_match (c # cs) r = regex_match cs (deriv c r)"

text \<open>
  \<^verbatim>\<open>const std::regex flag_rule = std::regex("-[\-a-zA-Z]+");\<close>
  \<^verbatim>\<open>const std::regex optional_rule = flag_rule;\<close>
  \<^verbatim>\<open>const std::regex positional_rule = std::regex("[_a-zA-Z][_a-zA-Z0-9]*");\<close>
  The escaped dash that opens the first bracket expression is the character dash,
  whether the compiler or the regex grammar resolves the escape.
\<close>

definition flag_rule :: regex where
  "flag_rule =
     Seq (Chr CHR ''-'')
       (Plus (Bracket [(CHR ''-'', CHR ''-''), (CHR ''a'', CHR ''z''), (CHR ''A'', CHR ''Z'')]))"

definition optional_rule :: regex where
  "optional_rule = flag_rule"

definition positional_rule :: regex where
  "positional_rule =
     Seq (Bracket [(CHR ''_'', CHR ''_''), (CHR ''a'', CHR ''z''), (CHR ''A'', CHR ''Z'')])
       (Star (Bracket [(CHR ''_'', CHR ''_''), (CHR ''a'', CHR ''z''), (CHR ''A'', CHR ''Z''),
                       (CHR ''0'', CHR ''9'')]))"

text \<open>
  Modelled from the spec: \<^verbatim>\<open>add_option\<close> tests its name against \<^verbatim>\<open>option_rule\<close>, an
  identifier the header never declares. The spec gives options the grammar of flags
  (\<^verbatim>\<open>-[-a-zA-Z]+\<close>), which is what the declared \<^verbatim>\<open>optional_rule\<close> holds.
\<close>

definition option_rule :: regex where
  "option_rule = optional_rule"

subsection \<open>The names the grammars accept, in words\<close>

text \<open>
  The spec's reading of the two grammars, written without regular expressions: a
  flag or option name is a dash followed by at least one more character, each a dash or
  a letter; a positional name is an underscore or a letter followed by underscores,
  letters and digits.
\<close>

definition is_letter :: "char \<Rightarrow> bool" where
  "is_letter c = (in_range c (CHR ''a'', CHR ''z'') \<or> in_range c (CHR ''A'', CHR ''Z''))"

definition is_digit10 :: "char \<Rightarrow> bool" where
  "is_digit10 c = in_range c (CHR ''0'', CHR ''9'')"

definition flag_name :: "string \<Rightarrow> bool" where
  "flag_name s =
     (case s of
        [] \<Rightarrow> False
      | c # cs \<Rightarrow> c = CHR ''-'' \<and> cs \<noteq> [] \<and> list_all (\<lambda>d. d = CHR ''-'' \<or> is_letter d) cs)"

definition positional_name :: "string \<Rightarrow> bool" where
  "positional_name s =
     (case s of
        [] \<Rightarrow> False
      | c # cs \<Rightarrow> (c = CHR ''_'' \<or> is_letter c)
                  \<and> list_all (\<lambda>d. d = CHR ''_'' \<or> is_letter d \<or> is_digit10 d) cs)"

subsection \<open>The parser object\<close>

text \<open>
  A storage cell of the caller is named by its address; the parser keeps the address
  (the C++ reference) and never owns the cell. \<open>cells\<close> is the caller's memory.
\<close>

type_synonym ref = nat

datatype val = BoolV bool | IntV int | DoubleV real | StringV string

type_synonym cells = "ref \<Rightarrow> val"

text \<open>
  A \<^verbatim>\<open>TokenParser<T>\<close> object: the target type and the reference \<^verbatim>\<open>m_ref\<close>.
\<close>

datatype target = IntT | DoubleT | StringT

datatype token_parser = TokenParser target ref

record ArgumentParser =
  m_program_name :: string
  m_program_description :: string
  m_flags_dict :: "string \<rightharpoonup> ref"
  m_optionals_dict :: "string \<rightharpoonup> token_parser"
  m_positional_dict :: "string set"
  m_positional_vect :: "token_parser list"

text \<open>The constructor stores the two strings; the four containers start empty.\<close>

definition ArgumentParser_new :: "string \<Rightarrow> string \<Rightarrow> ArgumentParser" where
  "ArgumentParser_new program_name program_description =
     \<lparr> m_program_name = program_name,
       m_program_description = program_description,
       m_flags_dict = Map.empty,
       m_optionals_dict = Map.empty,
       m_positional_dict = {},
       m_positional_vect = [] \<rparr>"

subsection \<open>Registration\<close>

text \<open>
  What a call of a \<^verbatim>\<open>bool\<close> member hands back: the value of the \<^verbatim>\<open>return\<close>
  statement it executed, or \<open>NoReturn\<close> when control reaches the closing brace of the
  body without one (the caller then reads no defined value).
\<close>

datatype ret = Returned bool | NoReturn

text \<open>
  The lines written to \<^verbatim>\<open>std::cerr\<close>, by the spec's taxonomy. \<open>InvalidName\<close> stands for
  \<^verbatim>\<open>[ERROR]: `NAME` is not an appropriate flag name\<close> (and the option and positional
  wordings), \<open>DuplicateName\<close> for \<^verbatim>\<open>[ERROR]: `NAME` has been already registered\<close> and
  \<^verbatim>\<open>[ERROR]: another positional with name `NAME` has already been registered\<close>.
\<close>

datatype kind = Flag | Option | Positional

datatype diagnostic = InvalidName kind string | DuplicateName kind string

type_synonym outcome = "ret \<times> diagnostic list \<times> ArgumentParser"

definition returned :: "outcome \<Rightarrow> ret" where
  "returned out = fst out"

definition cerr :: "outcome \<Rightarrow> diagnostic list" where
  "cerr out = fst (snd out)"

definition parser :: "outcome \<Rightarrow> ArgumentParser" where
  "parser out = snd (snd out)"

text \<open>
  \<^verbatim>\<open>bool ArgumentParser::add_flag(const std::string& argument_name, bool& ref)\<close>.
  The last statement, \<^verbatim>\<open>m_flags_dict[argument_name] = ref;\<close>, binds the name to the
  cell; no \<^verbatim>\<open>return\<close> follows it.
\<close>

definition add_flag :: "string \<Rightarrow> ref \<Rightarrow> ArgumentParser \<Rightarrow> outcome" where
  "add_flag argument_name r p =
     (if \<not> regex_match argument_name flag_rule then
        (Returned False, [InvalidName Flag argument_name], p)
      else if argument_name \<in> dom (m_flags_dict p) \<or> argument_name \<in> dom (m_optionals_dict p) then
        (Returned False, [DuplicateName Flag argument_name], p)
      else
        (NoReturn, [], p\<lparr>m_flags_dict := (m_flags_dict p)(argument_name \<mapsto> r)\<rparr>))"

text \<open>
  \<^verbatim>\<open>template <typename T> bool ArgumentParser::add_option(const std::string&, T& ref)\<close>.
  After the two checks the body ends with the comment
  \<^verbatim>\<open>// TODO: add parser to dictionary\<close>: nothing is stored and nothing is returned.
  \<open>T\<close> is the type of the cell only; the body does not depend on it.
\<close>

definition add_option :: "string \<Rightarrow> target \<Rightarrow> ref \<Rightarrow> ArgumentParser \<Rightarrow> outcome" where
  "add_option argument_name T r p =
     (if \<not> regex_match argument_name option_rule then
        (Returned False, [InvalidName Option argument_name], p)
      else if argument_name \<in> dom (m_flags_dict p) \<or> argument_name \<in> dom (m_optionals_dict p) then
        (Returned False, [DuplicateName Option argument_name], p)
      else
        (NoReturn, [], p))"

text \<open>
  \<^verbatim>\<open>template <typename T> bool ArgumentParser::add_positional(const std::string&, T& ref)\<close>.
  The first test is written \<^verbatim>\<open>if (nor std::regex_match(...))\<close> and is read as
  \<^verbatim>\<open>not\<close>. After \<^verbatim>\<open>m_positional_dict.insert(argument_name);\<close> the body ends
  with \<^verbatim>\<open>// TODO: add parser to vector of parsers\<close>.
\<close>

definition add_positional :: "string \<Rightarrow> target \<Rightarrow> ref \<Rightarrow> ArgumentParser \<Rightarrow> outcome" where
  "add_positional argument_name T r p =
     (if \<not> regex_match argument_name positional_rule then
        (Returned False, [InvalidName Positional argument_name], p)
      else if argument_name \<in> m_positional_dict p then
        (Returned False, [DuplicateName Positional argument_name], p)
      else
        (NoReturn, [], p\<lparr>m_positional_dict := insert argument_name (m_positional_dict p)\<rparr>))"

subsection \<open>Parsing\<close>

text \<open>
  \<^verbatim>\<open>bool ArgumentParser::parse_args(int argc, char* argv[]) { return false; }\<close>.
  The result is the returned flag, the parser object and the caller's cells after
  the call.
\<close>

definition parse_args ::
    "int \<Rightarrow> string list \<Rightarrow> ArgumentParser \<Rightarrow> cells \<Rightarrow> bool \<times> ArgumentParser \<times> cells" where
  "parse_args argc argv p mem = (False, p, mem)"

subsection \<open>Conversion strategies\<close>

text \<open>
  The exceptions \<^verbatim>\<open>std::stoi\<close> and \<^verbatim>\<open>std::stod\<close> throw; both derive from
  \<^verbatim>\<open>std::exception\<close>, which the \<^verbatim>\<open>catch\<close> clauses of the header catch.
\<close>

datatype std_exception = invalid_argument | out_of_range

text \<open>
  \<^verbatim>\<open>std::stoi(s)\<close> of the C++ standard library, with its defaults (no position
  pointer, base 10), as the standard defines it through \<^verbatim>\<open>strtol\<close>: leading white
  space is skipped, one sign is optional, then the longest run of decimal digits is
  converted and everything after it is ignored. No digit at that place throws
  \<^verbatim>\<open>invalid_argument\<close>; a value outside the range of \<^verbatim>\<open>int\<close> (32 bits here) throws
  \<^verbatim>\<open>out_of_range\<close>.
\<close>

definition isspace :: "char \<Rightarrow> bool" where
  "isspace c = (c = CHR '' '' \<or> in_range c (CHR 0x09, CHR 0x0D))"

definition isdigit :: "char \<Rightarrow> bool" where
  "isdigit c = in_range c (CHR ''0'', CHR ''9'')"

definition digit_value :: "char \<Rightarrow> int" where
  "digit_value c = int (of_char c) - 48"

definition decimal :: "string \<Rightarrow> int" where
  "decimal ds = foldl (\<lambda>acc d. 10 * acc + digit_value d) 0 ds"

definition INT_MIN :: int where
  "INT_MIN = - (2 ^ 31)"

definition INT_MAX :: int where
  "INT_MAX = 2 ^ 31 - 1"

definition stoi :: "string \<Rightarrow> std_exception + int" where
  "stoi str =
     (let s = dropWhile isspace str;
          negative = (case s of [] \<Rightarrow> False | c # _ \<Rightarrow> c = CHR ''-'');
          t = (case s of [] \<Rightarrow> [] | c # cs \<Rightarrow> if c = CHR ''-'' \<or> c = CHR ''+'' then cs else s);
          ds = takeWhile isdigit t
      in if ds = [] then Inl invalid_argument
         else let v = (if negative then - decimal ds else decimal ds)
              in if v < INT_MIN \<or> INT_MAX < v then Inl out_of_range else Inr v)"

text \<open>
  \<^verbatim>\<open>ParseTraits<int>::parse\<close>:
  \<^verbatim>\<open>try { return std::stoi(s); } catch(std::exception const& e) { return std::nullopt; }\<close>
\<close>

definition ParseTraits_int_parse :: "string \<Rightarrow> int option" where
  "ParseTraits_int_parse s = (case stoi s of Inl e \<Rightarrow> None | Inr v \<Rightarrow> Some v)"

text \<open>
  A \<^verbatim>\<open>double\<close> by the number it stands for: a real, an infinity or a NaN.
\<close>

datatype double = Fin real | PosInf | NegInf | NaN

text \<open>
  The implicit conversion of a \<^verbatim>\<open>double\<close> to \<^verbatim>\<open>int\<close>: the fractional part is
  discarded; when the truncated value is not an \<^verbatim>\<open>int\<close> (an infinity and a NaN
  included) the standard leaves the behaviour undefined, here \<open>None\<close>.
\<close>

definition double_to_int :: "double \<Rightarrow> int option" where
  "double_to_int d =
     (case d of
        Fin x \<Rightarrow>
          (let i = (if 0 \<le> x then \<lfloor>x\<rfloor> else \<lceil>x\<rceil>)
           in if i < INT_MIN \<or> INT_MAX < i then None else Some i)
      | PosInf \<Rightarrow> None
      | NegInf \<Rightarrow> None
      | NaN \<Rightarrow> None)"

datatype 'a behaviour = Defined 'a | Undefined

text \<open>
  \<^verbatim>\<open>ParseTraits<double>::parse\<close> is declared
  \<^verbatim>\<open>static std::optional<int> parse(const std::string& s)\<close> with the body
  \<^verbatim>\<open>try { return std::stod(s); } catch(std::exception const& e) { return std::nullopt; }\<close>:
  the \<^verbatim>\<open>double\<close> that \<^verbatim>\<open>std::stod\<close> returns is converted to the \<^verbatim>\<open>int\<close> of
  the declared result. \<^verbatim>\<open>std::stod\<close> is the standard library's and is a parameter
  here.
\<close>

definition ParseTraits_double_parse ::
    "(string \<Rightarrow> std_exception + double) \<Rightarrow> string \<Rightarrow> int option behaviour" where
  "ParseTraits_double_parse stod s =
     (case stod s of
        Inl e \<Rightarrow> Defined None
      | Inr d \<Rightarrow> (case double_to_int d of None \<Rightarrow> Undefined | Some i \<Rightarrow> Defined (Some i)))"

text \<open>
  \<^verbatim>\<open>ParseTraits<std::string>::parse\<close>: \<^verbatim>\<open>return s;\<close> into a
  \<^verbatim>\<open>std::optional<std::string>\<close>.
\<close>

definition ParseTraits_string_parse :: "string \<Rightarrow> string option" where
  "ParseTraits_string_parse s = Some s"

subsection \<open>Callers\<close>

text \<open>
  The parser objects a caller can hold: a new one, and what any of the three
  registration calls leaves of one.
\<close>

inductive built :: "ArgumentParser \<Rightarrow> bool" where
  built_new: "built (ArgumentParser_new program_name program_description)"
| built_flag: "built p \<Longrightarrow> built (parser (add_flag argument_name r p))"
| built_option: "built p \<Longrightarrow> built (parser (add_option argument_name T r p))"
| built_positional: "built p \<Longrightarrow> built (parser (add_positional argument_name T r p))"

text \<open>A caller registering positionals one after the other.\<close>

fun add_positionals :: "(string \<times> target \<times> ref) list \<Rightarrow> ArgumentParser \<Rightarrow> ArgumentParser" where
  "add_positionals [] p = p"
| "add_positionals ((argument_name, T, r) # calls) p =
     add_positionals calls (parser (add_positional argument_name T r p))"

text \<open>
  The spec's first end-to-end scenario: the cells \<open>v\<close>, \<open>c\<close> and \<open>n\<close> at the addresses
  0, 1 and 2, holding \<^verbatim>\<open>false\<close>, \<^verbatim>\<open>0\<close> and the empty string, and the parser after
  \<^verbatim>\<open>add_flag("--verbose", v)\<close>, \<^verbatim>\<open>add_option("--count", c)\<close> and
  \<^verbatim>\<open>add_positional("name", n)\<close>.
\<close>

definition scenario_cells :: cells where
  "scenario_cells a = (if a = 0 then BoolV False else if a = 1 then IntV 0 else StringV [])"

definition scenario_parser :: "ref \<Rightarrow> ref \<Rightarrow> ref \<Rightarrow> ArgumentParser" where
  "scenario_parser v c n =
     parser (add_positional ''name'' StringT n
       (parser (add_option ''--count'' IntT c
         (parser (add_flag ''--verbose'' v (ArgumentParser_new ''prog'' ''an example''))))))"

definition scenario_argv :: "string list" where
  "scenario_argv = [''prog'', ''--verbose'', ''--count'', ''5'', ''alice'']"

subsection \<open>The language of a regular expression\<close>

definition conc :: "string set \<Rightarrow> string set \<Rightarrow> string set" where
  "conc A B = {xs @ ys | xs ys. xs \<in> A \<and> ys \<in> B}"

inductive_set star :: "string set \<Rightarrow> string set" for A :: "string set" where
  star_empty: "[] \<in> star A"
| star_step: "xs \<in> A \<Longrightarrow> ys \<in> star A \<Longrightarrow> xs @ ys \<in> star A"

fun lang :: "regex \<Rightarrow> string set" where
  "lang Zero = {}"
| "lang One = {[]}"
| "lang (Chr c) = {[c]}"
| "lang (Bracket rs) = {[c] | c. in_bracket rs c}"
| "lang (Alt r s) = lang r \<union> lang s"
| "lang (Seq r s) = conc (lang r) (lang s)"
| "lang (Star r) = star (lang r)"

section \<open>The matcher decides the language\<close>

lemma nullable_lang: "nullable r \<longleftrightarrow> [] \<in> lang r"
  by (induction r) (auto simp: conc_def intro: star.intros)

lemma conc_Cons_iff:
  "c # w \<in> conc A B \<longleftrightarrow> ([] \<in> A \<and> c # w \<in> B) \<or> (\<exists>u v. w = u @ v \<and> c # u \<in> A \<and> v \<in> B)"
  unfolding conc_def by (auto simp: Cons_eq_append_conv)

lemma star_Cons_split:
  assumes "w \<in> star A"
  shows "w = c # t \<Longrightarrow> \<exists>u v. t = u @ v \<and> c # u \<in> A \<and> v \<in> star A"
  using assms
proof (induction rule: star.induct)
  case star_empty
  then show ?case by simp
next
  case (star_step xs ys)
  show ?case
  proof (cases xs)
    case Nil
    with star_step show ?thesis by simp
  next
    case (Cons x xs')
    with star_step.prems have "x = c" and "t = xs' @ ys" by simp_all
    with Cons star_step.hyps show ?thesis by blast
  qed
qed

lemma star_Cons_iff:
  "c # w \<in> star A \<longleftrightarrow> (\<exists>u v. w = u @ v \<and> c # u \<in> A \<and> v \<in> star A)"
proof
  assume "c # w \<in> star A"
  then show "\<exists>u v. w = u @ v \<and> c # u \<in> A \<and> v \<in> star A"
    using star_Cons_split by blast
next
  assume "\<exists>u v. w = u @ v \<and> c # u \<in> A \<and> v \<in> star A"
  then obtain u v where "w = u @ v" "c # u \<in> A" "v \<in> star A" by blast
  then show "c # w \<in> star A"
    using star_step [of "c # u" A v] by simp
qed

lemma deriv_lang: "w \<in> lang (deriv c r) \<longleftrightarrow> c # w \<in> lang r"
proof (induction r arbitrary: w)
  case (Seq r s)
  then show ?case
    by (auto simp: conc_Cons_iff nullable_lang) (auto simp: conc_def)
next
  case (Star r)
  then show ?case
    by (auto simp: star_Cons_iff) (auto simp: conc_def)
qed auto

lemma regex_match_lang: "regex_match s r \<longleftrightarrow> s \<in> lang r"
  by (induction s arbitrary: r) (simp_all add: nullable_lang deriv_lang)

lemma star_chars: "star {[c] | c. P c} = {w. list_all P w}"
proof (rule set_eqI, rule iffI)
  fix w assume "w \<in> star {[c] | c. P c}"
  then show "w \<in> {w. list_all P w}"
    by (induction rule: star.induct) auto
next
  fix w assume "w \<in> {w. list_all P w}"
  then have "list_all P w" by simp
  then show "w \<in> star {[c] | c. P c}"
  proof (induction w)
    case Nil
    show ?case by (rule star_empty)
  next
    case (Cons a w)
    then have "[a] \<in> {[c] | c. P c}" and "w \<in> star {[c] | c. P c}" by simp_all
    then have "[a] @ w \<in> star {[c] | c. P c}" by (rule star_step)
    then show ?case by simp
  qed
qed


lemma in_range_single: "in_range c (d, d) \<longleftrightarrow> c = d"
  by (auto simp: in_range_def)

lemma lang_Bracket_Star:
  "lang (Seq (Bracket B) (Star (Bracket B'))) =
     {c # w | c w. in_bracket B c \<and> list_all (in_bracket B') w}"
proof (rule set_eqI, rule iffI)
  fix s assume "s \<in> lang (Seq (Bracket B) (Star (Bracket B')))"
  then obtain xs ys where "s = xs @ ys" "xs \<in> lang (Bracket B)" "ys \<in> star (lang (Bracket B'))"
    by (auto simp: conc_def)
  then show "s \<in> {c # w | c w. in_bracket B c \<and> list_all (in_bracket B') w}"
    by (auto simp: star_chars)
next
  fix s assume "s \<in> {c # w | c w. in_bracket B c \<and> list_all (in_bracket B') w}"
  then obtain c w where s: "s = [c] @ w" and "in_bracket B c" "list_all (in_bracket B') w"
    by auto
  then have "[c] \<in> lang (Bracket B)" and "w \<in> lang (Star (Bracket B'))"
    by (simp_all add: star_chars)
  then show "s \<in> lang (Seq (Bracket B) (Star (Bracket B')))"
    unfolding s lang.simps conc_def by blast
qed

lemma lang_Chr_Seq: "w \<in> lang (Seq (Chr c) r) \<longleftrightarrow> (\<exists>t. w = c # t \<and> t \<in> lang r)"
  by (auto simp: conc_def)

lemma flag_rule_names: "regex_match s flag_rule \<longleftrightarrow> flag_name s"
proof -
  let ?B = "[(CHR ''-'', CHR ''-''), (CHR ''a'', CHR ''z''), (CHR ''A'', CHR ''Z'')]"
  have B: "in_bracket ?B d \<longleftrightarrow> d = CHR ''-'' \<or> is_letter d" for d
    by (auto simp: in_bracket_def is_letter_def in_range_single)
  have "regex_match s flag_rule \<longleftrightarrow> s \<in> lang (Seq (Chr CHR ''-'') (Seq (Bracket ?B) (Star (Bracket ?B))))"
    by (simp only: regex_match_lang flag_rule_def Plus_def)
  also have "\<dots> \<longleftrightarrow> (\<exists>c w. s = CHR ''-'' # c # w \<and> in_bracket ?B c \<and> list_all (in_bracket ?B) w)"
    unfolding lang_Chr_Seq lang_Bracket_Star by blast
  also have "\<dots> \<longleftrightarrow> flag_name s"
    unfolding B flag_name_def by (cases s; cases "tl s") auto
  finally show ?thesis .
qed

lemma positional_rule_names: "regex_match s positional_rule \<longleftrightarrow> positional_name s"
proof -
  let ?B = "[(CHR ''_'', CHR ''_''), (CHR ''a'', CHR ''z''), (CHR ''A'', CHR ''Z'')]"
  let ?B' = "[(CHR ''_'', CHR ''_''), (CHR ''a'', CHR ''z''), (CHR ''A'', CHR ''Z''), (CHR ''0'', CHR ''9'')]"
  have B: "in_bracket ?B d \<longleftrightarrow> d = CHR ''_'' \<or> is_letter d" for d
    by (auto simp: in_bracket_def is_letter_def in_range_single)
  have B': "in_bracket ?B' d \<longleftrightarrow> d = CHR ''_'' \<or> is_letter d \<or> is_digit10 d" for d
    by (auto simp: in_bracket_def is_letter_def is_digit10_def in_range_single)
  have "regex_match s positional_rule \<longleftrightarrow> s \<in> lang (Seq (Bracket ?B) (Star (Bracket ?B')))"
    by (simp only: regex_match_lang positional_rule_def)
  also have "\<dots> \<longleftrightarrow> (\<exists>c w. s = c # w \<and> in_bracket ?B c \<and> list_all (in_bracket ?B') w)"
    unfolding lang_Bracket_Star by blast
  also have "\<dots> \<longleftrightarrow> positional_name s"
    unfolding B B' positional_name_def by (cases s) auto
  finally show ?thesis .
qed

lemmas rule_eval = flag_rule_def optional_rule_def option_rule_def positional_rule_def
  Plus_def in_bracket_def in_range_def

section \<open>Registration, case by case\<close>

lemma add_flag_invalid:
  "\<not> regex_match name flag_rule \<Longrightarrow>
     add_flag name r p = (Returned False, [InvalidName Flag name], p)"
  by (simp add: add_flag_def)

lemma add_flag_duplicate:
  "regex_match name flag_rule \<Longrightarrow>
   name \<in> dom (m_flags_dict p) \<or> name \<in> dom (m_optionals_dict p) \<Longrightarrow>
     add_flag name r p = (Returned False, [DuplicateName Flag name], p)"
  by (simp add: add_flag_def)

lemma add_flag_fresh:
  "regex_match name flag_rule \<Longrightarrow>
   name \<notin> dom (m_flags_dict p) \<Longrightarrow> name \<notin> dom (m_optionals_dict p) \<Longrightarrow>
     add_flag name r p = (NoReturn, [], p\<lparr>m_flags_dict := (m_flags_dict p)(name \<mapsto> r)\<rparr>)"
  by (simp add: add_flag_def)

lemma add_option_invalid:
  "\<not> regex_match name flag_rule \<Longrightarrow>
     add_option name T r p = (Returned False, [InvalidName Option name], p)"
  by (simp add: add_option_def option_rule_def optional_rule_def)

lemma add_option_duplicate:
  "regex_match name flag_rule \<Longrightarrow>
   name \<in> dom (m_flags_dict p) \<or> name \<in> dom (m_optionals_dict p) \<Longrightarrow>
     add_option name T r p = (Returned False, [DuplicateName Option name], p)"
  by (simp add: add_option_def option_rule_def optional_rule_def)

lemma add_option_fresh:
  "regex_match name flag_rule \<Longrightarrow>
   name \<notin> dom (m_flags_dict p) \<Longrightarrow> name \<notin> dom (m_optionals_dict p) \<Longrightarrow>
     add_option name T r p = (NoReturn, [], p)"
  by (simp add: add_option_def option_rule_def optional_rule_def)

lemma add_positional_invalid:
  "\<not> regex_match name positional_rule \<Longrightarrow>
     add_positional name T r p = (Returned False, [InvalidName Positional name], p)"
  by (simp add: add_positional_def)

lemma add_positional_duplicate:
  "regex_match name positional_rule \<Longrightarrow> name \<in> m_positional_dict p \<Longrightarrow>
     add_positional name T r p = (Returned False, [DuplicateName Positional name], p)"
  by (simp add: add_positional_def)

lemma add_positional_fresh:
  "regex_match name positional_rule \<Longrightarrow> name \<notin> m_positional_dict p \<Longrightarrow>
     add_positional name T r p =
       (NoReturn, [], p\<lparr>m_positional_dict := insert name (m_positional_dict p)\<rparr>)"
  by (simp add: add_positional_def)

lemma add_option_parser: "parser (add_option name T r p) = p"
  by (simp add: add_option_def parser_def)

lemma add_positional_parser_other:
  "m_flags_dict (parser (add_positional name T r p)) = m_flags_dict p"
  "m_optionals_dict (parser (add_positional name T r p)) = m_optionals_dict p"
  "m_positional_vect (parser (add_positional name T r p)) = m_positional_vect p"
  by (simp_all add: add_positional_def parser_def)

lemma add_positional_parser_dict:
  "m_positional_dict (parser (add_positional name T r p)) =
     (if regex_match name positional_rule then insert name (m_positional_dict p)
      else m_positional_dict p)"
  by (auto simp: add_positional_def parser_def)

text \<open>
  Every parser a caller can build holds only names of the right grammar, no option
  parser and no positional parser.
\<close>

lemma built_registries:
  "built p \<Longrightarrow>
     (\<forall>name \<in> dom (m_flags_dict p). regex_match name flag_rule) \<and>
     m_optionals_dict p = Map.empty \<and>
     (\<forall>name \<in> m_positional_dict p. regex_match name positional_rule) \<and>
     m_positional_vect p = []"
proof (induction rule: built.induct)
  case (built_new program_name program_description)
  show ?case by (simp add: ArgumentParser_new_def)
next
  case (built_flag p argument_name r)
  then show ?case
    by (auto simp: add_flag_def parser_def split: if_splits)
next
  case (built_option p argument_name T r)
  then show ?case by (simp add: add_option_parser)
next
  case (built_positional p argument_name T r)
  then show ?case
    by (auto simp: add_positional_def parser_def split: if_splits)
qed

lemma add_positionals_registries:
  "m_positional_vect (add_positionals calls p) = m_positional_vect p \<and>
   m_positional_dict (add_positionals calls p) =
     m_positional_dict p \<union> {name \<in> set (map fst calls). regex_match name positional_rule}"
proof (induction calls arbitrary: p)
  case Nil
  show ?case by simp
next
  case (Cons call calls)
  obtain name T r where call: "call = (name, T, r)"
    by (cases call) auto
  show ?case
    using Cons.IH [of "parser (add_positional name T r p)"]
    by (auto simp: call add_positional_parser_other add_positional_parser_dict)
qed

lemma scenario_parser_eval:
  "scenario_parser v c n =
     \<lparr> m_program_name = ''prog'',
       m_program_description = ''an example'',
       m_flags_dict = [''--verbose'' \<mapsto> v],
       m_optionals_dict = Map.empty,
       m_positional_dict = {''name''},
       m_positional_vect = [] \<rparr>"
  by (simp add: scenario_parser_def add_flag_def add_option_def add_positional_def parser_def
      ArgumentParser_new_def rule_eval)

lemma scenario_parser_built: "built (scenario_parser v c n)"
  unfolding scenario_parser_def by (intro built.intros)

section \<open>\<^verbatim>\<open>std::stoi\<close> on literals\<close>

lemma digit_not_space: "isdigit c \<Longrightarrow> \<not> isspace c"
  by (auto simp: isdigit_def isspace_def in_range_def)

lemma digit_not_sign: "isdigit c \<Longrightarrow> c \<noteq> CHR ''-'' \<and> c \<noteq> CHR ''+''"
  by (auto simp: isdigit_def in_range_def)

lemma sign_not_space: "\<not> isspace CHR ''-''" "\<not> isspace CHR ''+''"
  by (simp_all add: isspace_def in_range_def)

lemma takeWhile_digits:
  assumes "ds \<noteq> []" "list_all isdigit ds" "rest = [] \<or> \<not> isdigit (hd rest)"
  shows "takeWhile isdigit (ds @ rest) = ds"
proof -
  have "takeWhile isdigit rest = []"
    using assms(3) by (cases rest) auto
  moreover have "\<forall>x \<in> set ds. isdigit x"
    using assms(2) by (simp add: list_all_iff)
  ultimately show ?thesis by simp
qed

lemma stoi_literal:
  assumes ws: "list_all isspace ws"
    and sg: "sg = [] \<or> sg = ''+'' \<or> sg = ''-''"
    and ds: "ds \<noteq> []" "list_all isdigit ds"
    and rest: "rest = [] \<or> \<not> isdigit (hd rest)"
  shows "stoi (ws @ sg @ ds @ rest) =
           (let v = (if sg = ''-'' then - decimal ds else decimal ds)
            in if v < INT_MIN \<or> INT_MAX < v then Inl out_of_range else Inr v)"
proof -
  obtain d ds' where d: "ds = d # ds'" "isdigit d"
    using ds by (cases ds) auto
  have tw: "takeWhile isdigit (ds @ rest) = ds"
    using ds rest by (rule takeWhile_digits)
  have "\<forall>x \<in> set ws. isspace x"
    using ws by (simp add: list_all_iff)
  then have drop: "dropWhile isspace (ws @ sg @ ds @ rest) = dropWhile isspace (sg @ ds @ rest)"
    by simp
  from sg consider "sg = []" | "sg = ''+''" | "sg = ''-''" by blast
  then show ?thesis
  proof cases
    case 1
    then have "dropWhile isspace (ws @ sg @ ds @ rest) = ds @ rest"
      using drop d digit_not_space by simp
    then show ?thesis
      using 1 tw d digit_not_sign [of d] unfolding stoi_def
      by (simp add: Let_def)
  next
    case 2
    then have "dropWhile isspace (ws @ sg @ ds @ rest) = CHR ''+'' # ds @ rest"
      using drop sign_not_space by simp
    then show ?thesis
      using 2 tw d unfolding stoi_def by (simp add: Let_def)
  next
    case 3
    then have "dropWhile isspace (ws @ sg @ ds @ rest) = CHR ''-'' # ds @ rest"
      using drop sign_not_space by simp
    then show ?thesis
      using 3 tw d unfolding stoi_def by (simp add: Let_def)
  qed
qed

lemma stoi_Inr_decomp:
  assumes "stoi s = Inr v"
  shows "\<exists>ws sg ds rest. s = ws @ sg @ ds @ rest \<and> list_all isspace ws \<and>
           (sg = [] \<or> sg = ''+'' \<or> sg = ''-'') \<and> ds \<noteq> [] \<and> list_all isdigit ds \<and>
           (rest = [] \<or> \<not> isdigit (hd rest))"
proof -
  let ?s1 = "dropWhile isspace s"
  define sg where
    "sg = (case ?s1 of [] \<Rightarrow> [] | c # cs \<Rightarrow> if c = CHR ''-'' \<or> c = CHR ''+'' then [c] else [])"
  define t where
    "t = (case ?s1 of [] \<Rightarrow> [] | c # cs \<Rightarrow> if c = CHR ''-'' \<or> c = CHR ''+'' then cs else ?s1)"
  have s: "s = takeWhile isspace s @ ?s1"
    by simp
  have split_sign: "x =
      (case x of [] \<Rightarrow> [] | c # cs \<Rightarrow> if c = CHR ''-'' \<or> c = CHR ''+'' then [c] else []) @
      (case x of [] \<Rightarrow> [] | c # cs \<Rightarrow> if c = CHR ''-'' \<or> c = CHR ''+'' then cs else x)"
    for x :: string
    by (cases x) simp_all
  have s1: "?s1 = sg @ t"
    unfolding sg_def t_def by (rule split_sign)
  have "takeWhile isdigit t = [] \<Longrightarrow> stoi s = Inl invalid_argument"
    by (simp add: stoi_def Let_def t_def)
  with assms have nonempty: "takeWhile isdigit t \<noteq> []"
    by auto
  have rest: "dropWhile isdigit t = [] \<or> \<not> isdigit (hd (dropWhile isdigit t))"
    using hd_dropWhile [of isdigit t] by blast
  have "s = takeWhile isspace s @ sg @ takeWhile isdigit t @ dropWhile isdigit t"
    using s s1 by simp
  moreover have "list_all isspace (takeWhile isspace s)"
    by (auto simp: list_all_iff dest: set_takeWhileD)
  moreover have "sg = [] \<or> sg = ''+'' \<or> sg = ''-''"
    unfolding sg_def by (simp split: list.split)
  moreover have "list_all isdigit (takeWhile isdigit t)"
    by (auto simp: list_all_iff dest: set_takeWhileD)
  ultimately show ?thesis
    using nonempty rest by blast
qed

lemmas stoi_eval = ParseTraits_int_parse_def stoi_def isspace_def isdigit_def in_range_def
  decimal_def digit_value_def INT_MIN_def INT_MAX_def

section \<open>Properties\<close>

text \<open>
  C6. For every input string, the empty one included, the text conversion succeeds
  and hands the input back unchanged.
\<close>

theorem ParseTraits_string_parse_identity:
  "ParseTraits_string_parse s = Some s \<and> ParseTraits_string_parse [] = Some []"
  by (simp add: ParseTraits_string_parse_def)

text \<open>
  C9. Whatever the argument vector, \<^verbatim>\<open>parse_args\<close> returns false and leaves every
  cell of the caller (and the parser object) as it was before the call.
\<close>

theorem parse_args_returns_false_writes_nothing:
  "parse_args argc argv p mem = (False, p, mem)"
  by (simp add: parse_args_def)

text \<open>
  C2. For a name of the flag grammar that is in neither the flag nor the option
  registry, \<^verbatim>\<open>add_flag\<close> stores the binding and writes no diagnostic, and then
  reaches the end of its body: no \<^verbatim>\<open>return true\<close> is executed.
\<close>

theorem add_flag_stores_without_return:
  assumes "regex_match name flag_rule"
    and "name \<notin> dom (m_flags_dict p)"
    and "name \<notin> dom (m_optionals_dict p)"
  shows "add_flag name r p = (NoReturn, [], p\<lparr>m_flags_dict := (m_flags_dict p)(name \<mapsto> r)\<rparr>)"
  using assms by (rule add_flag_fresh)

theorem add_flag_stores_without_return_witness:
  "returned (add_flag ''--verbose'' 0 (ArgumentParser_new ''prog'' ''an example'')) = NoReturn \<and>
   m_flags_dict (parser (add_flag ''--verbose'' 0 (ArgumentParser_new ''prog'' ''an example'')))
     ''--verbose'' = Some 0"
proof -
  let ?p = "ArgumentParser_new ''prog'' ''an example''"
  have grammar: "regex_match ''--verbose'' flag_rule"
    by (simp add: rule_eval)
  have fresh: "''--verbose'' \<notin> dom (m_flags_dict ?p)" "''--verbose'' \<notin> dom (m_optionals_dict ?p)"
    by (simp_all add: ArgumentParser_new_def)
  show ?thesis
    using add_flag_stores_without_return [OF grammar fresh, of 0]
    by (simp add: returned_def parser_def)
qed

text \<open>
  C7. A name that does not match \<^verbatim>\<open>-[-a-zA-Z]+\<close> makes \<^verbatim>\<open>add_flag\<close> and
  \<^verbatim>\<open>add_option\<close> return false with an InvalidName diagnostic, and a name that does
  not match \<^verbatim>\<open>[_a-zA-Z][_a-zA-Z0-9]*\<close> makes \<^verbatim>\<open>add_positional\<close> do so; the
  names \<^verbatim>\<open>foo\<close> and \<^verbatim>\<open>--1bad\<close> fail the first grammar, \<^verbatim>\<open>123x\<close> and \<^verbatim>\<open>-x\<close> the
  second. The two patterns accept exactly the names the grammars describe in words.
\<close>

theorem invalid_names_rejected:
  "(\<not> regex_match name flag_rule \<longrightarrow>
      add_flag name r p = (Returned False, [InvalidName Flag name], p) \<and>
      add_option name T r p = (Returned False, [InvalidName Option name], p)) \<and>
   (\<not> regex_match name positional_rule \<longrightarrow>
      add_positional name T r p = (Returned False, [InvalidName Positional name], p)) \<and>
   \<not> regex_match ''foo'' flag_rule \<and> \<not> regex_match ''--1bad'' flag_rule \<and>
   \<not> regex_match ''123x'' positional_rule \<and> \<not> regex_match ''-x'' positional_rule \<and>
   regex_match name flag_rule = flag_name name \<and>
   regex_match name positional_rule = positional_name name"
proof -
  have "\<not> regex_match ''foo'' flag_rule" "\<not> regex_match ''--1bad'' flag_rule"
    by (simp_all add: rule_eval)
  moreover have "\<not> regex_match ''123x'' positional_rule" "\<not> regex_match ''-x'' positional_rule"
    by (simp_all add: rule_eval)
  moreover note flag_rule_names [of name] positional_rule_names [of name]
  ultimately show ?thesis
    by (simp add: add_flag_invalid add_option_invalid add_positional_invalid)
qed

theorem invalid_names_rejected_witness:
  "add_flag ''--1bad'' 0 (scenario_parser 0 1 2) =
     (Returned False, [InvalidName Flag ''--1bad''], scenario_parser 0 1 2) \<and>
   add_option ''foo'' IntT 1 (scenario_parser 0 1 2) =
     (Returned False, [InvalidName Option ''foo''], scenario_parser 0 1 2) \<and>
   add_positional ''123x'' StringT 2 (scenario_parser 0 1 2) =
     (Returned False, [InvalidName Positional ''123x''], scenario_parser 0 1 2)"
proof -
  have bad: "\<not> regex_match ''--1bad'' flag_rule" "\<not> regex_match ''foo'' flag_rule"
    "\<not> regex_match ''123x'' positional_rule"
    by (simp_all add: rule_eval)
  show ?thesis
    using invalid_names_rejected [of "''--1bad''" 0 "scenario_parser 0 1 2" IntT]
      invalid_names_rejected [of "''foo''" 1 "scenario_parser 0 1 2" IntT]
      invalid_names_rejected [of "''123x''" 2 "scenario_parser 0 1 2" StringT]
      bad
    by blast
qed

text \<open>
  C8. A registration call that returns false leaves the parser object, all four
  registries included, exactly as it was before the call.
\<close>

theorem failed_registration_changes_nothing:
  "(returned (add_flag name r p) = Returned False \<longrightarrow> parser (add_flag name r p) = p) \<and>
   (returned (add_option name T r p) = Returned False \<longrightarrow> parser (add_option name T r p) = p) \<and>
   (returned (add_positional name T r p) = Returned False \<longrightarrow>
      parser (add_positional name T r p) = p)"
  by (simp add: add_flag_def add_option_def add_positional_def returned_def parser_def)

theorem failed_registration_changes_nothing_witness:
  "returned (add_flag ''--verbose'' 3 (scenario_parser 0 1 2)) = Returned False \<and>
   parser (add_flag ''--verbose'' 3 (scenario_parser 0 1 2)) = scenario_parser 0 1 2 \<and>
   returned (add_option ''foo'' IntT 3 (scenario_parser 0 1 2)) = Returned False \<and>
   parser (add_option ''foo'' IntT 3 (scenario_parser 0 1 2)) = scenario_parser 0 1 2 \<and>
   returned (add_positional ''name'' StringT 3 (scenario_parser 0 1 2)) = Returned False \<and>
   parser (add_positional ''name'' StringT 3 (scenario_parser 0 1 2)) = scenario_parser 0 1 2"
proof -
  let ?p = "scenario_parser 0 1 2"
  have f: "returned (add_flag ''--verbose'' 3 ?p) = Returned False"
    by (simp add: scenario_parser_eval add_flag_def returned_def rule_eval)
  have opt: "returned (add_option ''foo'' IntT 3 ?p) = Returned False"
    by (simp add: add_option_def returned_def rule_eval)
  have pos: "returned (add_positional ''name'' StringT 3 ?p) = Returned False"
    by (simp add: scenario_parser_eval add_positional_def returned_def rule_eval)
  show ?thesis
    using failed_registration_changes_nothing [of "''--verbose''" 3 ?p IntT]
      failed_registration_changes_nothing [of "''foo''" 3 ?p IntT]
      failed_registration_changes_nothing [of "''name''" 3 ?p StringT]
      f opt pos
    by blast
qed

text \<open>
  C3. Where the second registration of a name is refused and where it is not. For a
  name of the flag grammar that is in neither the flag nor the option registry:
  after a first \<^verbatim>\<open>add_flag\<close>, which stores the binding, a second \<^verbatim>\<open>add_flag\<close> and an
  \<^verbatim>\<open>add_option\<close> of that name return false with a DuplicateName diagnostic and
  change nothing; a first \<^verbatim>\<open>add_option\<close> stores nothing (its body ends at
  \<^verbatim>\<open>// TODO: add parser to dictionary\<close>), so a second \<^verbatim>\<open>add_option\<close> of that name
  is not refused, and neither is an \<^verbatim>\<open>add_flag\<close> of it. No call that gets past the
  two checks executes a \<^verbatim>\<open>return\<close>.
\<close>

theorem second_add_option_not_refused:
  assumes "regex_match name flag_rule"
    and "name \<notin> dom (m_flags_dict p)"
    and "name \<notin> dom (m_optionals_dict p)"
  shows "add_option name T r p = (NoReturn, [], p) \<and>
    add_option name T' r' (parser (add_option name T r p)) = (NoReturn, [], p) \<and>
    add_flag name r' (parser (add_option name T r p)) =
      (NoReturn, [], p\<lparr>m_flags_dict := (m_flags_dict p)(name \<mapsto> r')\<rparr>) \<and>
    add_flag name r p = (NoReturn, [], p\<lparr>m_flags_dict := (m_flags_dict p)(name \<mapsto> r)\<rparr>) \<and>
    add_flag name r' (parser (add_flag name r p)) =
      (Returned False, [DuplicateName Flag name], parser (add_flag name r p)) \<and>
    add_option name T r' (parser (add_flag name r p)) =
      (Returned False, [DuplicateName Option name], parser (add_flag name r p))"
proof -
  let ?p' = "p\<lparr>m_flags_dict := (m_flags_dict p)(name \<mapsto> r)\<rparr>"
  have option_first: "add_option name T r p = (NoReturn, [], p)" for T r
    using assms by (rule add_option_fresh)
  have flag_first: "add_flag name r p = (NoReturn, [], p\<lparr>m_flags_dict := (m_flags_dict p)(name \<mapsto> r)\<rparr>)"
    for r
    using assms by (rule add_flag_fresh)
  have after_option: "parser (add_option name T r p) = p"
    by (rule add_option_parser)
  have after_flag: "parser (add_flag name r p) = ?p'"
    by (simp add: flag_first parser_def)
  have stored: "name \<in> dom (m_flags_dict ?p') \<or> name \<in> dom (m_optionals_dict ?p')"
    by simp
  have "add_flag name r' ?p' = (Returned False, [DuplicateName Flag name], ?p')"
    using assms(1) stored by (rule add_flag_duplicate)
  moreover have "add_option name T r' ?p' = (Returned False, [DuplicateName Option name], ?p')"
    using assms(1) stored by (rule add_option_duplicate)
  ultimately show ?thesis
    unfolding after_option after_flag
    using option_first [of T r] option_first [of T' r'] flag_first [of r] flag_first [of r']
    by simp
qed

theorem second_add_option_not_refused_witness:
  "add_option ''--count'' IntT 1 (ArgumentParser_new ''prog'' ''an example'') =
     (NoReturn, [], ArgumentParser_new ''prog'' ''an example'') \<and>
   add_option ''--count'' IntT 1
       (parser (add_option ''--count'' IntT 1 (ArgumentParser_new ''prog'' ''an example''))) =
     (NoReturn, [], ArgumentParser_new ''prog'' ''an example'') \<and>
   add_flag ''--count'' 1
       (parser (add_flag ''--count'' 1 (ArgumentParser_new ''prog'' ''an example''))) =
     (Returned False, [DuplicateName Flag ''--count''],
      parser (add_flag ''--count'' 1 (ArgumentParser_new ''prog'' ''an example'')))"
proof -
  let ?new = "ArgumentParser_new ''prog'' ''an example''"
  have grammar: "regex_match ''--count'' flag_rule"
    by (simp add: rule_eval)
  have fresh: "''--count'' \<notin> dom (m_flags_dict ?new)" "''--count'' \<notin> dom (m_optionals_dict ?new)"
    by (simp_all add: ArgumentParser_new_def)
  show ?thesis
    using second_add_option_not_refused [OF grammar fresh, of IntT 1 IntT 1]
    by blast
qed

text \<open>
  C10. An \<^verbatim>\<open>add_positional\<close> call that does not fail puts its name into the set of
  positional names, and no \<^verbatim>\<open>add_positional\<close> call touches the vector of positional
  parsers: after any sequence of such calls on a new parser the vector is empty and the
  set holds every name of the positional grammar that was passed. \<^verbatim>\<open>add_option\<close>
  never changes the dictionary of option parsers, which is empty, like the vector, on
  every parser built by registration calls.
\<close>

theorem parsers_never_stored:
  "(returned (add_positional name T r p) \<noteq> Returned False \<longrightarrow>
      name \<notin> m_positional_dict p \<and>
      m_positional_dict (parser (add_positional name T r p)) = insert name (m_positional_dict p)) \<and>
   m_positional_vect (parser (add_positional name T r p)) = m_positional_vect p \<and>
   m_positional_vect (add_positionals calls (ArgumentParser_new program_name description)) = [] \<and>
   m_positional_dict (add_positionals calls (ArgumentParser_new program_name description)) =
     {n \<in> set (map fst calls). regex_match n positional_rule} \<and>
   m_optionals_dict (parser (add_option name T r p)) = m_optionals_dict p \<and>
   (built p \<longrightarrow> m_optionals_dict p = Map.empty \<and> m_positional_vect p = [])"
proof (intro conjI impI)
  assume "returned (add_positional name T r p) \<noteq> Returned False"
  then have ok: "regex_match name positional_rule \<and> name \<notin> m_positional_dict p"
    by (auto simp: add_positional_def returned_def split: if_splits)
  then show "name \<notin> m_positional_dict p"
    by simp
  from ok show "m_positional_dict (parser (add_positional name T r p)) =
      insert name (m_positional_dict p)"
    by (simp add: add_positional_parser_dict)
next
  show "m_positional_vect (parser (add_positional name T r p)) = m_positional_vect p"
    by (simp add: add_positional_parser_other)
next
  show "m_positional_vect (add_positionals calls (ArgumentParser_new program_name description)) = []"
    by (simp add: add_positionals_registries) (simp add: ArgumentParser_new_def)
next
  show "m_positional_dict (add_positionals calls (ArgumentParser_new program_name description)) =
      {n \<in> set (map fst calls). regex_match n positional_rule}"
    by (simp add: add_positionals_registries) (simp add: ArgumentParser_new_def)
next
  show "m_optionals_dict (parser (add_option name T r p)) = m_optionals_dict p"
    by (simp add: add_option_parser)
next
  assume "built p"
  then show "m_optionals_dict p = Map.empty" and "m_positional_vect p = []"
    using built_registries [of p] by simp_all
qed

theorem parsers_never_stored_witness:
  "m_positional_dict (parser (add_positional ''name'' StringT 2 (ArgumentParser_new ''prog'' ''an example''))) =
     insert ''name'' (m_positional_dict (ArgumentParser_new ''prog'' ''an example'')) \<and>
   m_positional_vect (parser (add_positional ''name'' StringT 2 (ArgumentParser_new ''prog'' ''an example''))) =
     m_positional_vect (ArgumentParser_new ''prog'' ''an example'') \<and>
   m_optionals_dict (scenario_parser 0 1 2) = Map.empty \<and>
   m_positional_vect (scenario_parser 0 1 2) = []"
proof -
  let ?new = "ArgumentParser_new ''prog'' ''an example''"
  have ok: "returned (add_positional ''name'' StringT 2 ?new) \<noteq> Returned False"
    by (simp add: add_positional_def returned_def ArgumentParser_new_def rule_eval)
  have b: "built (scenario_parser 0 1 2)"
    by (rule scenario_parser_built)
  show ?thesis
    using parsers_never_stored [of "''name''" StringT 2 ?new "[]" "''prog''" "''an example''"]
      parsers_never_stored [of "''name''" StringT 2 "scenario_parser 0 1 2" "[]" "''prog''" "''an example''"]
      ok b
    by blast
qed

text \<open>
  C1, as the code has it. On the parser of the first scenario (\<^verbatim>\<open>--verbose\<close> bound
  to \<open>v\<close>, \<^verbatim>\<open>--count\<close> passed with \<open>c\<close>, \<^verbatim>\<open>name\<close> passed with \<open>n\<close>, no call having
  failed), \<^verbatim>\<open>parse_args\<close> on \<^verbatim>\<open>--verbose --count 5 alice\<close> returns false and the cells
  hold what they held before the call.
\<close>

theorem scenario_parse_args_fails:
  "parse_args 5 scenario_argv (scenario_parser v c n) mem = (False, scenario_parser v c n, mem) \<and>
   m_flags_dict (scenario_parser v c n) ''--verbose'' = Some v \<and>
   ''name'' \<in> m_positional_dict (scenario_parser v c n)"
  by (simp add: parse_args_def) (simp add: scenario_parser_eval)

theorem scenario_parse_args_counterexample:
  "fst (parse_args 5 scenario_argv (scenario_parser 0 1 2) scenario_cells) = False \<and>
   snd (snd (parse_args 5 scenario_argv (scenario_parser 0 1 2) scenario_cells)) 0 = BoolV False \<and>
   snd (snd (parse_args 5 scenario_argv (scenario_parser 0 1 2) scenario_cells)) 1 = IntV 0 \<and>
   snd (snd (parse_args 5 scenario_argv (scenario_parser 0 1 2) scenario_cells)) 2 = StringV []"
  by (simp add: parse_args_def scenario_cells_def)

text \<open>
  C4, as the code has it. The integer conversion maps \<^verbatim>\<open>42\<close> to 42 and \<^verbatim>\<open>-7\<close> to
  -7, fails on \<^verbatim>\<open>abc\<close>, and maps \<^verbatim>\<open>3.5\<close> to 3. After leading white space and
  one optional sign it converts the longest run of decimal digits and ignores what
  follows: the result is the signed value of that run when it is an \<^verbatim>\<open>int\<close>, a
  failure when it is out of range, and a failure on every input that does not begin,
  after white space, with an optionally signed decimal literal.
\<close>

theorem ParseTraits_int_parse_prefix:
  "ParseTraits_int_parse ''42'' = Some 42 \<and>
   ParseTraits_int_parse ''-7'' = Some (- 7) \<and>
   ParseTraits_int_parse ''abc'' = None \<and>
   ParseTraits_int_parse ''3.5'' = Some 3 \<and>
   (list_all isspace ws \<and> (sg = [] \<or> sg = ''+'' \<or> sg = ''-'') \<and> ds \<noteq> [] \<and>
    list_all isdigit ds \<and> (rest = [] \<or> \<not> isdigit (hd rest)) \<longrightarrow>
      ParseTraits_int_parse (ws @ sg @ ds @ rest) =
        (let v = (if sg = ''-'' then - decimal ds else decimal ds)
         in if INT_MIN \<le> v \<and> v \<le> INT_MAX then Some v else None)) \<and>
   (\<not> (\<exists>ws sg ds rest. s = ws @ sg @ ds @ rest \<and> list_all isspace ws \<and>
          (sg = [] \<or> sg = ''+'' \<or> sg = ''-'') \<and> ds \<noteq> [] \<and> list_all isdigit ds) \<longrightarrow>
      ParseTraits_int_parse s = None)"
proof (intro conjI impI)
  show "ParseTraits_int_parse ''42'' = Some 42"
    by (simp add: stoi_eval)
  show "ParseTraits_int_parse ''-7'' = Some (- 7)"
    by (simp add: stoi_eval)
  show "ParseTraits_int_parse ''abc'' = None"
    by (simp add: stoi_eval)
  show "ParseTraits_int_parse ''3.5'' = Some 3"
    by (simp add: stoi_eval)
next
  assume "list_all isspace ws \<and> (sg = [] \<or> sg = ''+'' \<or> sg = ''-'') \<and> ds \<noteq> [] \<and>
    list_all isdigit ds \<and> (rest = [] \<or> \<not> isdigit (hd rest))"
  then have "stoi (ws @ sg @ ds @ rest) =
      (let v = (if sg = ''-'' then - decimal ds else decimal ds)
       in if v < INT_MIN \<or> INT_MAX < v then Inl out_of_range else Inr v)"
    by (intro stoi_literal) simp_all
  then show "ParseTraits_int_parse (ws @ sg @ ds @ rest) =
      (let v = (if sg = ''-'' then - decimal ds else decimal ds)
       in if INT_MIN \<le> v \<and> v \<le> INT_MAX then Some v else None)"
    by (auto simp: ParseTraits_int_parse_def Let_def)
next
  assume none: "\<not> (\<exists>ws sg ds rest. s = ws @ sg @ ds @ rest \<and> list_all isspace ws \<and>
    (sg = [] \<or> sg = ''+'' \<or> sg = ''-'') \<and> ds \<noteq> [] \<and> list_all isdigit ds)"
  show "ParseTraits_int_parse s = None"
  proof (cases "stoi s")
    case (Inl e)
    then show ?thesis by (simp add: ParseTraits_int_parse_def)
  next
    case (Inr v)
    from stoi_Inr_decomp [OF this] none show ?thesis by blast
  qed
qed

theorem ParseTraits_int_parse_prefix_witness:
  "ParseTraits_int_parse '' +12abc'' = Some 12 \<and> ParseTraits_int_parse ''x1'' = None"
proof -
  have lit: "list_all isspace '' '' \<and> (''+'' = [] \<or> ''+'' = ''+'' \<or> ''+'' = ''-'') \<and> ''12'' \<noteq> [] \<and>
      list_all isdigit ''12'' \<and> (''abc'' = [] \<or> \<not> isdigit (hd ''abc''))"
    by (simp add: isspace_def isdigit_def in_range_def)
  have no_lit: "\<not> (\<exists>ws sg ds rest. ''x1'' = ws @ sg @ ds @ rest \<and> list_all isspace ws \<and>
      (sg = [] \<or> sg = ''+'' \<or> sg = ''-'') \<and> ds \<noteq> [] \<and> list_all isdigit ds)"
    by (auto simp: Cons_eq_append_conv isspace_def isdigit_def in_range_def)
  have v: "(let v = (if ''+'' = ''-'' then - decimal ''12'' else decimal ''12'')
            in if INT_MIN \<le> v \<and> v \<le> INT_MAX then Some v else None) = Some 12"
    by (simp add: decimal_def digit_value_def INT_MIN_def INT_MAX_def)
  have "'' '' @ ''+'' @ ''12'' @ ''abc'' = '' +12abc''"
    by simp
  then show ?thesis
    using ParseTraits_int_parse_prefix [of "'' ''" "''+''" "''12''" "''abc''" "''x1''"] lit no_lit v
    by metis
qed

theorem ParseTraits_int_parse_counterexample:
  "ParseTraits_int_parse ''3.5'' \<noteq> None \<and> ParseTraits_int_parse ''12abc'' = Some 12 \<and>
   ParseTraits_int_parse '' 42'' = Some 42"
  by (simp add: stoi_eval)

text \<open>
  C5. \<^verbatim>\<open>ParseTraits<double>::parse\<close> hands back an \<^verbatim>\<open>int\<close>: whenever
  \<^verbatim>\<open>std::stod\<close> yields a number \<open>x\<close> with \<open>0 \<le> x < 2\<^sup>3\<^sup>1\<close> the result is the integer
  part of \<open>x\<close> (3 for the \<^verbatim>\<open>double\<close> next to 3.14), and when \<^verbatim>\<open>std::stod\<close> yields a
  NaN, as it does on text that starts with \<^verbatim>\<open>nan\<close>, the result is no failure but
  an undefined conversion.
\<close>

theorem ParseTraits_double_parse_truncates:
  "(stod s = Inr (Fin x) \<and> 0 \<le> x \<and> x < 2 ^ 31 \<longrightarrow>
      ParseTraits_double_parse stod s = Defined (Some \<lfloor>x\<rfloor>)) \<and>
   (stod s = Inr (Fin x) \<and> 3 \<le> x \<and> x < 4 \<longrightarrow>
      ParseTraits_double_parse stod s = Defined (Some 3)) \<and>
   (stod s = Inr NaN \<longrightarrow> ParseTraits_double_parse stod s = Undefined) \<and>
   (stod s = Inl e \<longrightarrow> ParseTraits_double_parse stod s = Defined None)"
proof (intro conjI impI)
  assume a: "stod s = Inr (Fin x) \<and> 0 \<le> x \<and> x < 2 ^ 31"
  then have "0 \<le> \<lfloor>x\<rfloor>" and "\<lfloor>x\<rfloor> < 2 ^ 31"
    by (simp_all add: floor_less_iff)
  with a show "ParseTraits_double_parse stod s = Defined (Some \<lfloor>x\<rfloor>)"
    by (simp add: ParseTraits_double_parse_def double_to_int_def INT_MIN_def INT_MAX_def)
next
  assume a: "stod s = Inr (Fin x) \<and> 3 \<le> x \<and> x < 4"
  then have "\<lfloor>x\<rfloor> = 3"
    by (simp add: floor_eq_iff)
  with a show "ParseTraits_double_parse stod s = Defined (Some 3)"
    by (simp add: ParseTraits_double_parse_def double_to_int_def INT_MIN_def INT_MAX_def)
next
  assume "stod s = Inr NaN"
  then show "ParseTraits_double_parse stod s = Undefined"
    by (simp add: ParseTraits_double_parse_def double_to_int_def)
next
  assume "stod s = Inl e"
  then show "ParseTraits_double_parse stod s = Defined None"
    by (simp add: ParseTraits_double_parse_def)
qed

theorem ParseTraits_double_parse_truncates_witness:
  "ParseTraits_double_parse (\<lambda>s. if s = ''3.14'' then Inr (Fin (314 / 100)) else Inr NaN) ''3.14'' =
     Defined (Some 3) \<and>
   ParseTraits_double_parse (\<lambda>s. if s = ''3.14'' then Inr (Fin (314 / 100)) else Inr NaN) ''nan-ish'' =
     Undefined \<and>
   ParseTraits_double_parse (\<lambda>s. Inl invalid_argument) ''abc'' = Defined None"
proof -
  let ?stod = "\<lambda>s. if s = ''3.14'' then Inr (Fin (314 / 100)) else (Inr NaN :: std_exception + double)"
  let ?fail = "\<lambda>s :: string. (Inl invalid_argument :: std_exception + double)"
  have a: "?stod ''3.14'' = Inr (Fin (314 / 100)) \<and> (3::real) \<le> 314 / 100 \<and> (314 / 100 :: real) < 4"
    by simp
  have b: "?stod ''nan-ish'' = Inr NaN"
    by simp
  have c: "?fail ''abc'' = Inl invalid_argument"
    by simp
  show ?thesis
    using ParseTraits_double_parse_truncates [of ?stod "''3.14''" "314 / 100" invalid_argument]
      ParseTraits_double_parse_truncates [of ?stod "''nan-ish''" 0 invalid_argument]
      ParseTraits_double_parse_truncates [of ?fail "''abc''" 0 invalid_argument]
      a b c
    by blast
qed

end
